theory Spec2Isabelle
  imports Complex_Main "HOL-Library.Sublist"
begin

section \<open>Strings\<close>

text \<open>
  A string of the program is a sequence of UTF-16 code units. The model keeps the code
  units \<open>0..255\<close> (the Latin-1 range), one \<^typ>\<open>char\<close> each. On that range
  \<^verbatim>\<open>toLowerCase\<close> maps one code unit to one code unit, and the white space of
  \<^verbatim>\<open>trim\<close> and of the pattern class \<^verbatim>\<open>\s\<close> is the same set of seven code units.
\<close>

definition inRange :: "char \<Rightarrow> char \<Rightarrow> char \<Rightarrow> bool" where
  "inRange lo hi c = ((of_char lo :: nat) \<le> of_char c \<and> (of_char c :: nat) \<le> of_char hi)"

text \<open>The pattern class \<^verbatim>\<open>\d\<close> (without the unicode flag): \<^verbatim>\<open>[0-9]\<close>.\<close>

definition isDigit :: "char \<Rightarrow> bool" where
  "isDigit c = inRange CHR ''0'' CHR ''9'' c"

text \<open>The pattern class \<^verbatim>\<open>[a-zA-Z]\<close>.\<close>

definition isLetter :: "char \<Rightarrow> bool" where
  "isLetter c = (inRange CHR ''a'' CHR ''z'' c \<or> inRange CHR ''A'' CHR ''Z'' c)"

text \<open>The pattern class \<^verbatim>\<open>[a-zA-Z0-9]\<close>.\<close>

definition isAlnum :: "char \<Rightarrow> bool" where
  "isAlnum c = (isLetter c \<or> isDigit c)"

text \<open>
  White space: TAB, LF, VT, FF, CR, SPACE and NO-BREAK SPACE. It is what \<^verbatim>\<open>trim\<close> strips
  and what \<^verbatim>\<open>\s\<close> matches, among the code units below 256.
\<close>

definition isSpace :: "char \<Rightarrow> bool" where
  "isSpace c = (inRange (CHR 0x09) (CHR 0x0D) c \<or> c = CHR 0x20 \<or> c = CHR 0xA0)"

text \<open>
  Adding 32 to a code unit whose bit 5 is clear sets that bit. Upper-case letters are
  \<open>A..Z\<close> and \<open>0xC0..0xDE\<close> without the multiplication sign \<open>0xD7\<close>; bit 5 is clear
  in all of them.
\<close>

fun setBit5 :: "char \<Rightarrow> char" where
  "setBit5 (Char b0 b1 b2 b3 b4 b5 b6 b7) = Char b0 b1 b2 b3 b4 True b6 b7"

definition isUpper :: "char \<Rightarrow> bool" where
  "isUpper c = (inRange CHR ''A'' CHR ''Z'' c \<or> (inRange (CHR 0xC0) (CHR 0xDE) c \<and> c \<noteq> CHR 0xD7))"

definition toLowerChar :: "char \<Rightarrow> char" where
  "toLowerChar c = (if isUpper c then setBit5 c else c)"

definition toLowerCase :: "string \<Rightarrow> string" where
  "toLowerCase s = map toLowerChar s"

definition trim :: "string \<Rightarrow> string" where
  "trim s = rev (dropWhile isSpace (rev (dropWhile isSpace s)))"

text \<open>\<^verbatim>\<open>s.includes(t)\<close>: \<open>t\<close> occurs in \<open>s\<close> as a contiguous block.\<close>

fun includes' :: "string \<Rightarrow> string \<Rightarrow> bool" where
  "includes' [] t = (t = [])"
| "includes' (c # s) t = (prefix t (c # s) \<or> includes' s t)"

text \<open>The relational operator \<^verbatim>\<open><\<close> on two strings: lexicographic on the code units.\<close>

fun strLess :: "string \<Rightarrow> string \<Rightarrow> bool" where
  "strLess [] [] = False"
| "strLess [] (y # ys) = True"
| "strLess (x # xs) [] = False"
| "strLess (x # xs) (y # ys) =
     (if (of_char x :: nat) < of_char y then True
      else if (of_char y :: nat) < of_char x then False
      else strLess xs ys)"

section \<open>Patterns\<close>

text \<open>
  The patterns of the validators are anchored at both ends and use classes, sequence,
  the optional group, bounded and unbounded repetition only, so \<^verbatim>\<open>test\<close> decides
  membership in a regular language. \<open>Upto n r\<close> is \<^verbatim>\<open>r{0,n}\<close>.
\<close>

datatype rx =
    Nomatch
  | Eps
  | Cls "char \<Rightarrow> bool"
  | Seq rx rx
  | Alt rx rx
  | Star rx
  | Upto nat rx

definition Opt :: "rx \<Rightarrow> rx" where
  "Opt r = Alt r Eps"

definition Plus :: "rx \<Rightarrow> rx" where
  "Plus r = Seq r (Star r)"

definition Lit :: "char \<Rightarrow> rx" where
  "Lit c = Cls (\<lambda>d. d = c)"

fun nullable :: "rx \<Rightarrow> bool" where
  "nullable Nomatch = False"
| "nullable Eps = True"
| "nullable (Cls p) = False"
| "nullable (Seq r s) = (nullable r \<and> nullable s)"
| "nullable (Alt r s) = (nullable r \<or> nullable s)"
| "nullable (Star r) = True"
| "nullable (Upto n r) = True"

fun seq :: "rx \<Rightarrow> rx \<Rightarrow> rx" where
  "seq Nomatch s = Nomatch"
| "seq Eps s = s"
| "seq r s = Seq r s"

fun alt :: "rx \<Rightarrow> rx \<Rightarrow> rx" where
  "alt Nomatch s = s"
| "alt r Nomatch = r"
| "alt r s = Alt r s"

text \<open>The pattern that matches the rest of the input after the code unit \<open>c\<close>.\<close>

fun deriv :: "char \<Rightarrow> rx \<Rightarrow> rx" where
  "deriv c Nomatch = Nomatch"
| "deriv c Eps = Nomatch"
| "deriv c (Cls p) = (if p c then Eps else Nomatch)"
| "deriv c (Seq r s) =
     (if nullable r then alt (seq (deriv c r) s) (deriv c s) else seq (deriv c r) s)"
| "deriv c (Alt r s) = alt (deriv c r) (deriv c s)"
| "deriv c (Star r) = seq (deriv c r) (Star r)"
| "deriv c (Upto n r) = (if n = 0 then Nomatch else seq (deriv c r) (Upto (n - 1) r))"

text \<open>\<^verbatim>\<open>/^r$/.test(s)\<close>.\<close>

fun test :: "rx \<Rightarrow> string \<Rightarrow> bool" where
  "test r [] = nullable r"
| "test r (c # s) = test (deriv c r) s"

text \<open>
  The language of a pattern, for reference: the strings that the pattern describes.
  \<open>rest c A\<close> holds the strings that follow a leading \<open>c\<close> in \<open>A\<close>.
\<close>

definition conc :: "string set \<Rightarrow> string set \<Rightarrow> string set" where
  "conc A B = {u @ v | u v. u \<in> A \<and> v \<in> B}"

inductive_set star :: "string set \<Rightarrow> string set" for A :: "string set" where
  star_empty: "[] \<in> star A"
| star_more: "u \<in> A \<Longrightarrow> v \<in> star A \<Longrightarrow> u @ v \<in> star A"

fun repeatUpTo :: "nat \<Rightarrow> string set \<Rightarrow> string set" where
  "repeatUpTo 0 A = {[]}"
| "repeatUpTo (Suc n) A = insert [] (conc A (repeatUpTo n A))"

fun lang :: "rx \<Rightarrow> string set" where
  "lang Nomatch = {}"
| "lang Eps = {[]}"
| "lang (Cls p) = {[c] | c. p c}"
| "lang (Seq r s) = conc (lang r) (lang s)"
| "lang (Alt r s) = lang r \<union> lang s"
| "lang (Star r) = star (lang r)"
| "lang (Upto n r) = repeatUpTo n (lang r)"

definition rest :: "char \<Rightarrow> string set \<Rightarrow> string set" where
  "rest c A = {w. c # w \<in> A}"

section \<open>Field validation\<close>

record ValidationResult =
  isValid :: bool
  message :: string

text \<open>The field name is \<open>''This field''\<close> when the caller gives none.\<close>

definition validateRequired :: "string \<Rightarrow> string \<Rightarrow> ValidationResult" where
  "validateRequired val fieldName =
     (let trimmedValue = trim val;
          ok = (length trimmedValue > 0)
      in \<lparr>isValid = ok, message = (if ok then [] else fieldName @ '' is required'')\<rparr>)"

text \<open>The class \<^verbatim>\<open>[a-zA-Z0-9.!#$%&'*+/=?^_`{|}~-]\<close>.\<close>

definition emailLocalChar :: "char \<Rightarrow> bool" where
  "emailLocalChar c =
     (isAlnum c \<or> c \<in> set (''.!#$%&'' @ [CHR 0x27] @ ''*+/=?^_'' @ [CHR 0x60] @ ''{|}~-''))"

text \<open>The class \<^verbatim>\<open>[a-zA-Z0-9-]\<close>.\<close>

definition labelChar :: "char \<Rightarrow> bool" where
  "labelChar c = (isAlnum c \<or> c = CHR ''-'')"

text \<open>\<^verbatim>\<open>[a-zA-Z0-9](?:[a-zA-Z0-9-]{0,61}[a-zA-Z0-9])?\<close>\<close>

definition labelRegex :: rx where
  "labelRegex = Seq (Cls isAlnum) (Opt (Seq (Upto 61 (Cls labelChar)) (Cls isAlnum)))"

definition emailRegex :: rx where
  "emailRegex =
     Seq (Plus (Cls emailLocalChar))
       (Seq (Lit CHR ''@'')
         (Seq labelRegex (Star (Seq (Lit CHR ''.'') labelRegex))))"

definition validateEmail :: "string \<Rightarrow> ValidationResult" where
  "validateEmail email =
     (if trim email = [] then \<lparr>isValid = False, message = ''Email is required''\<rparr>
      else let ok = test emailRegex (trim email)
           in \<lparr>isValid = ok,
               message = (if ok then []
                          else ''Please enter a valid email address (e.g., name@example.com)'')\<rparr>)"

text \<open>The class \<^verbatim>\<open>[\d\s\-\(\)\.\+]\<close>.\<close>

definition phoneChar :: "char \<Rightarrow> bool" where
  "phoneChar c = (isDigit c \<or> isSpace c \<or> c \<in> set ''-().+'')"

text \<open>\<^verbatim>\<open>^[\+]?[\d\s\-\(\)\.\+]+$\<close>\<close>

definition phoneRegex :: rx where
  "phoneRegex = Seq (Opt (Lit CHR ''+'')) (Plus (Cls phoneChar))"

text \<open>\<^verbatim>\<open>phone.replace(/\D/g, '')\<close> keeps the digits of the raw text.\<close>

definition digitsOnly :: "string \<Rightarrow> string" where
  "digitsOnly phone = filter isDigit phone"

definition validatePhone :: "string \<Rightarrow> ValidationResult" where
  "validatePhone phone =
     (if trim phone = [] then \<lparr>isValid = False, message = ''Phone number is required''\<rparr>
      else if length (digitsOnly phone) < 10
        then \<lparr>isValid = False, message = ''Phone number must contain at least 10 digits''\<rparr>
      else let ok = test phoneRegex (trim phone)
           in \<lparr>isValid = ok,
               message = (if ok then [] else ''Please enter a valid phone number'')\<rparr>)"

text \<open>The class \<^verbatim>\<open>[a-zA-Z\s\-'\.]\<close>.\<close>

definition nameChar :: "char \<Rightarrow> bool" where
  "nameChar c = (isLetter c \<or> isSpace c \<or> c = CHR ''-'' \<or> c = CHR 0x27 \<or> c = CHR ''.'')"

definition nameRegex :: rx where
  "nameRegex = Plus (Cls nameChar)"

definition validateName :: "string \<Rightarrow> ValidationResult" where
  "validateName nm =
     (if trim nm = [] then \<lparr>isValid = False, message = ''Name is required''\<rparr>
      else let trimmedName = trim nm
           in if length trimmedName < 2
              then \<lparr>isValid = False, message = ''Name must be at least 2 characters long''\<rparr>
              else let ok = test nameRegex trimmedName
                   in \<lparr>isValid = ok,
                       message = (if ok then []
                         else ''Name can only contain letters, spaces, hyphens, and apostrophes'')\<rparr>)"

definition validDepartments :: "string list" where
  "validDepartments =
     [''Engineering'', ''Marketing'', ''Sales'', ''Human Resources'',
      ''Finance'', ''Operations'', ''Customer Support'', ''IT'', ''Legal'']"

definition validateDepartment :: "string \<Rightarrow> ValidationResult" where
  "validateDepartment department =
     (if trim department = [] then \<lparr>isValid = False, message = ''Department is required''\<rparr>
      else let ok = (department \<in> set validDepartments)
           in \<lparr>isValid = ok,
               message = (if ok then [] else ''Please select a valid department'')\<rparr>)"

section \<open>Form validation\<close>

text \<open>
  The form data is a dictionary from field names to strings; \<^verbatim>\<open>formData.name || ''\<close>
  reads a missing field as the empty string. The result is a dictionary too; its entries
  are kept in insertion order, which is the order \<^verbatim>\<open>Object.values\<close> lists them in
  when no key reads as an integer (such keys would come first); the four field names do not.
\<close>

definition field :: "(string \<rightharpoonup> string) \<Rightarrow> string \<Rightarrow> string" where
  "field formData k = (case formData k of None \<Rightarrow> [] | Some v \<Rightarrow> v)"

definition validateEmployeeForm :: "(string \<rightharpoonup> string) \<Rightarrow> (string \<times> ValidationResult) list" where
  "validateEmployeeForm formData =
     [(''name'', validateName (field formData ''name'')),
      (''email'', validateEmail (field formData ''email'')),
      (''phone'', validatePhone (field formData ''phone'')),
      (''department'', validateDepartment (field formData ''department''))]"

definition isFormValid :: "(string \<times> ValidationResult) list \<Rightarrow> bool" where
  "isFormValid errors = list_all isValid (map snd errors)"

definition getFirstErrorMessage :: "(string \<times> ValidationResult) list \<Rightarrow> string" where
  "getFirstErrorMessage errors =
     (case find (\<lambda>e. \<not> isValid e) (map snd errors) of
        None \<Rightarrow> []
      | Some firstError \<Rightarrow> message firstError)"

section \<open>Records of the directory\<close>

record Geo =
  lat :: string
  lng :: string

record Address =
  street :: string
  suite :: string
  city :: string
  zipcode :: string
  geo :: Geo

record Company =
  name :: string
  catchPhrase :: string
  bs :: string

record EmployeeFormData =
  name :: string
  email :: string
  phone :: string
  department :: string

text \<open>
  Identifiers are integers; the program holds them as double-precision numbers, which are
  exact up to \<open>2 ^ 53\<close>. The department of a record is the name of its company.
\<close>

record Employee =
  id' :: int
  name :: string
  username :: string
  email :: string
  phone :: string
  website :: string
  address :: Address
  company :: Company

datatype SortKey = KeyId | KeyName | KeyEmail | KeyPhone | KeyDepartment

datatype Direction = Asc | Desc

record SortConfig =
  key :: SortKey
  direction :: Direction

record ApiError =
  message :: string
  status :: "int option"

text \<open>The state of the component, one field per state variable.\<close>

record AppState =
  employees :: "Employee list"
  loading :: bool
  error :: "ApiError option"
  retrying :: bool
  showForm :: bool
  editingEmployee :: "Employee option"
  formLoading :: bool
  searchTerm :: string
  departmentFilter :: string
  sortConfig :: "SortConfig option"
  currentPage :: int
  pageSize :: int

section \<open>Filter, sort, paginate\<close>

definition matchesTerm :: "string \<Rightarrow> Employee \<Rightarrow> bool" where
  "matchesTerm term employee =
     (includes' (toLowerCase (Employee.name employee)) term \<or>
      includes' (toLowerCase (Employee.email employee)) term \<or>
      includes' (toLowerCase (Company.name (company employee))) term \<or>
      includes' (toLowerCase (Employee.phone employee)) term \<or>
      includes' (toLowerCase (username employee)) term)"

definition filteredEmployees :: "Employee list \<Rightarrow> string \<Rightarrow> string \<Rightarrow> Employee list" where
  "filteredEmployees emps search dept =
     (let filtered = emps;
          filtered = (if search \<noteq> []
                      then filter (matchesTerm (trim (toLowerCase search))) filtered
                      else filtered);
          filtered = (if dept \<noteq> []
                      then filter (\<lambda>employee. Company.name (company employee) = dept) filtered
                      else filtered)
      in filtered)"

text \<open>
  \<^verbatim>\<open>Array.prototype.sort\<close> is stable. The comparators of this program are consistent,
  so its result is the one of any stable sort; the model inserts the elements from the
  right, each before the first element it does not exceed.
\<close>

fun insertBy :: "('a \<Rightarrow> 'a \<Rightarrow> int) \<Rightarrow> 'a \<Rightarrow> 'a list \<Rightarrow> 'a list" where
  "insertBy cmp x [] = [x]"
| "insertBy cmp x (y # ys) = (if cmp x y \<le> 0 then x # y # ys else y # insertBy cmp x ys)"

definition sortBy :: "('a \<Rightarrow> 'a \<Rightarrow> int) \<Rightarrow> 'a list \<Rightarrow> 'a list" where
  "sortBy cmp xs = foldr (insertBy cmp) xs []"

text \<open>
  The value of a column as a string. The comparator returns on the identifier column
  before it reads a value as a string, so the value of that column is of no effect.
\<close>

fun sortValue :: "SortKey \<Rightarrow> Employee \<Rightarrow> string" where
  "sortValue KeyDepartment a = Company.name (company a)"
| "sortValue KeyName a = Employee.name a"
| "sortValue KeyEmail a = Employee.email a"
| "sortValue KeyPhone a = Employee.phone a"
| "sortValue KeyId a = []"

definition compareEmployees :: "SortConfig \<Rightarrow> Employee \<Rightarrow> Employee \<Rightarrow> int" where
  "compareEmployees cfg a b =
     (if key cfg = KeyId
      then (if direction cfg = Asc then id' a - id' b else id' b - id' a)
      else let strA = toLowerCase (sortValue (key cfg) a);
               strB = toLowerCase (sortValue (key cfg) b)
           in if strLess strA strB then (if direction cfg = Asc then - 1 else 1)
              else if strLess strB strA then (if direction cfg = Asc then 1 else - 1)
              else 0)"

definition sortedEmployees :: "Employee list \<Rightarrow> SortConfig option \<Rightarrow> Employee list" where
  "sortedEmployees filtered cfg =
     (case cfg of None \<Rightarrow> filtered | Some c \<Rightarrow> sortBy (compareEmployees c) filtered)"

definition handleSort :: "SortKey \<Rightarrow> SortConfig option \<Rightarrow> SortConfig option" where
  "handleSort k prevSort =
     (case prevSort of
        None \<Rightarrow> Some \<lparr>key = k, direction = Asc\<rparr>
      | Some p \<Rightarrow>
          if key p = k
          then (if direction p = Asc then Some \<lparr>key = k, direction = Desc\<rparr> else None)
          else Some \<lparr>key = k, direction = Asc\<rparr>)"

text \<open>
  A click on a column header: \<open>handleSort\<close> on the state, and the effect that sets the
  page back to 1 whenever the sort has changed (each toggle changes it).
\<close>

definition sortClicked :: "SortKey \<Rightarrow> AppState \<Rightarrow> AppState" where
  "sortClicked k st = st\<lparr>sortConfig := handleSort k (sortConfig st), currentPage := 1\<rparr>"

text \<open>
  \<^verbatim>\<open>xs.slice(start, fin)\<close>: a negative index counts from the end, and both indices are
  cut to the bounds of the array.
\<close>

definition slice :: "'a list \<Rightarrow> int \<Rightarrow> int \<Rightarrow> 'a list" where
  "slice xs start fin =
     (let len = int (length xs);
          k = (if start < 0 then max (len + start) 0 else min start len);
          final = (if fin < 0 then max (len + fin) 0 else min fin len)
      in take (nat (final - k)) (drop (nat k) xs))"

definition paginatedEmployees :: "Employee list \<Rightarrow> int \<Rightarrow> int \<Rightarrow> Employee list" where
  "paginatedEmployees srt page psize =
     (let startIndex = (page - 1) * psize
      in slice srt startIndex (startIndex + psize))"

text \<open>
  A quotient of two numbers is a number, an infinity or not a number. The page count
  divides a length, which is not negative, so the only infinity is the positive one.
\<close>

datatype jsnum = Num int | Infinity | NaN

definition totalPages :: "Employee list \<Rightarrow> int \<Rightarrow> jsnum" where
  "totalPages srt psize =
     (if psize = 0 then (if length srt = 0 then NaN else Infinity)
      else Num \<lceil>real (length srt) / real_of_int psize\<rceil>)"

fun leNum :: "int \<Rightarrow> jsnum \<Rightarrow> bool" where
  "leNum p (Num n) = (p \<le> n)"
| "leNum p Infinity = True"
| "leNum p NaN = False"

text \<open>The sorted sequence and the page count that a state shows.\<close>

definition viewSorted :: "AppState \<Rightarrow> Employee list" where
  "viewSorted st =
     sortedEmployees (filteredEmployees (employees st) (searchTerm st) (departmentFilter st))
       (sortConfig st)"

definition viewTotalPages :: "AppState \<Rightarrow> jsnum" where
  "viewTotalPages st = totalPages (viewSorted st) (pageSize st)"

definition handlePageChange :: "int \<Rightarrow> AppState \<Rightarrow> AppState" where
  "handlePageChange page st =
     (if page \<ge> 1 \<and> leNum page (viewTotalPages st) then st\<lparr>currentPage := page\<rparr> else st)"

section \<open>The service that builds the records\<close>

text \<open>\<^verbatim>\<open>s.replace(/\s+/g, '.')\<close>: every maximal run of white space becomes one dot.\<close>

fun replaceSpaces :: "bool \<Rightarrow> string \<Rightarrow> string" where
  "replaceSpaces inRun [] = []"
| "replaceSpaces inRun (c # s) =
     (if isSpace c then (if inRun then replaceSpaces True s else CHR ''.'' # replaceSpaces True s)
      else c # replaceSpaces False s)"

definition newEmployee :: "EmployeeFormData \<Rightarrow> Employee" where
  "newEmployee employeeData =
     \<lparr>id' = 0,
      Employee.name = EmployeeFormData.name employeeData,
      username = replaceSpaces False (toLowerCase (EmployeeFormData.name employeeData)),
      Employee.email = EmployeeFormData.email employeeData,
      Employee.phone = EmployeeFormData.phone employeeData,
      website = ''example.com'',
      address = \<lparr>street = ''Main Street'', suite = ''Suite 100'', city = ''Anytown'',
                 zipcode = ''12345-6789'', geo = \<lparr>lat = ''0.0000'', lng = ''0.0000''\<rparr>\<rparr>,
      company = \<lparr>Company.name = department employeeData,
                 catchPhrase = ''Innovative solutions for modern business'',
                 bs = ''synergistic value-added solutions''\<rparr>\<rparr>"

text \<open>
  \<open>createEmployee\<close> spreads the fields it built over the answer of the server, so
  only the identifier of the answer survives: \<^verbatim>\<open>response.id || Date.now()\<close>. The
  answer's identifier (possibly missing) and the clock are parameters. The object the
  service builds has no identifier before that; \<open>newEmployee\<close> holds 0 in its place.
\<close>

definition createEmployee :: "EmployeeFormData \<Rightarrow> int option \<Rightarrow> int \<Rightarrow> Employee" where
  "createEmployee employeeData responseId now =
     (newEmployee employeeData)
       \<lparr>id' := (case responseId of None \<Rightarrow> now | Some i \<Rightarrow> if i = 0 then now else i)\<rparr>"

text \<open>The body that \<open>updateEmployee\<close> sends; the service returns the server's answer to it.\<close>

definition updatedEmployee :: "int \<Rightarrow> EmployeeFormData \<Rightarrow> Employee" where
  "updatedEmployee i employeeData =
     \<lparr>id' = i,
      Employee.name = EmployeeFormData.name employeeData,
      username = replaceSpaces False (toLowerCase (EmployeeFormData.name employeeData)),
      Employee.email = EmployeeFormData.email employeeData,
      Employee.phone = EmployeeFormData.phone employeeData,
      website = ''example.com'',
      address = \<lparr>street = ''Main Street'', suite = ''Suite 100'', city = ''Anytown'',
                 zipcode = ''12345-6789'', geo = \<lparr>lat = ''0.0000'', lng = ''0.0000''\<rparr>\<rparr>,
      company = \<lparr>Company.name = department employeeData,
                 catchPhrase = ''Updated company information'',
                 bs = ''updated business solutions''\<rparr>\<rparr>"

section \<open>Saving and deleting\<close>

text \<open>\<^verbatim>\<open>Math.max(...employees.map(e => e.id), 0)\<close>\<close>

definition maxId :: "Employee list \<Rightarrow> int" where
  "maxId emps = foldr max (map id' emps) 0"

text \<open>
  \<open>handleFormSave\<close> awaits the service and then changes the state. The outcome of the
  call is a parameter: an error, or the record the service returned. \<open>captured\<close> is
  the collection of the render in which the handler was created (the handler reads the
  maximal identifier from it), \<open>st\<close> the state when the call returns. The result is the
  new state and the error that the handler throws again, if any.
  The spread \<^verbatim>\<open>{ ...emp, ...updatedEmployee }\<close> of two whole records is the second.
\<close>

definition handleFormSave ::
    "Employee list \<Rightarrow> (ApiError + Employee) \<Rightarrow> AppState \<Rightarrow> AppState \<times> ApiError option" where
  "handleFormSave captured outcome st =
     (case outcome of
        Inl err \<Rightarrow> (st\<lparr>formLoading := False\<rparr>, Some err)
      | Inr returned \<Rightarrow>
          (case editingEmployee st of
             Some editing \<Rightarrow>
               (st\<lparr>employees := map (\<lambda>emp. if id' emp = id' editing then returned else emp)
                                  (employees st),
                   showForm := False, editingEmployee := None, formLoading := False\<rparr>, None)
           | None \<Rightarrow>
               (let employeeWithId = returned\<lparr>id' := maxId captured + 1\<rparr>
                in (st\<lparr>employees := employeeWithId # employees st,
                       showForm := False, editingEmployee := None, formLoading := False\<rparr>,
                    None))))"

text \<open>The form that opens on a record starts from these fields of it.\<close>

definition formDataOf :: "Employee \<Rightarrow> EmployeeFormData" where
  "formDataOf employee =
     \<lparr>EmployeeFormData.name = Employee.name employee,
      EmployeeFormData.email = Employee.email employee,
      EmployeeFormData.phone = Employee.phone employee,
      department = Company.name (company employee)\<rparr>"

text \<open>A draft as the dictionary that \<open>validateEmployeeForm\<close> reads.\<close>

definition formDict :: "EmployeeFormData \<Rightarrow> (string \<rightharpoonup> string)" where
  "formDict d =
     [''name'' \<mapsto> EmployeeFormData.name d, ''email'' \<mapsto> EmployeeFormData.email d,
      ''phone'' \<mapsto> EmployeeFormData.phone d, ''department'' \<mapsto> department d]"

text \<open>
  \<open>handleDeleteEmployee\<close> in its two steps. \<open>deleteOptimistic\<close> is the state in which
  the call to the service is issued; \<open>deleteFailed\<close> is what the handler does when
  that call fails, on the state of that later moment.
\<close>

definition deleteOptimistic :: "Employee \<Rightarrow> AppState \<Rightarrow> AppState" where
  "deleteOptimistic employee st =
     st\<lparr>employees := filter (\<lambda>emp. id' emp \<noteq> id' employee) (employees st)\<rparr>"

definition deleteFailed :: "ApiError \<Rightarrow> Employee \<Rightarrow> AppState \<Rightarrow> AppState" where
  "deleteFailed err employee st =
     st\<lparr>employees := sortBy (\<lambda>a b. id' a - id' b) (employees st @ [employee]),
        error := Some err\<rparr>"

text \<open>
  The whole handler when nothing else changes the state while the call is under way:
  \<open>confirmed\<close> is the answer to the dialog, \<open>outcome\<close> the error of the call, if any.
\<close>

definition handleDeleteEmployee :: "bool \<Rightarrow> ApiError option \<Rightarrow> Employee \<Rightarrow> AppState \<Rightarrow> AppState" where
  "handleDeleteEmployee confirmed outcome employee st =
     (if \<not> confirmed then st
      else case outcome of
             None \<Rightarrow> deleteOptimistic employee st
           | Some err \<Rightarrow> deleteFailed err employee (deleteOptimistic employee st))"

section \<open>The records of the test suite\<close>

definition leanne :: Employee where
  "leanne =
     \<lparr>id' = 1, Employee.name = ''Leanne Graham'', username = ''Bret'',
      Employee.email = ''Sincere@april.biz'', Employee.phone = ''1-770-736-8031 x56442'',
      website = ''hildegard.org'',
      address = \<lparr>street = ''Kulas Light'', suite = ''Apt. 556'', city = ''Gwenborough'',
                 zipcode = ''92998-3874'', geo = \<lparr>lat = ''-37.3159'', lng = ''81.1496''\<rparr>\<rparr>,
      company = \<lparr>Company.name = ''Engineering'',
                 catchPhrase = ''Multi-layered client-server neural-net'',
                 bs = ''harness real-time e-markets''\<rparr>\<rparr>"

definition ervin :: Employee where
  "ervin =
     \<lparr>id' = 2, Employee.name = ''Ervin Howell'', username = ''Antonette'',
      Employee.email = ''Shanna@melissa.tv'', Employee.phone = ''010-692-6593 x09125'',
      website = ''anastasia.net'',
      address = \<lparr>street = ''Victor Plains'', suite = ''Suite 879'', city = ''Wisokyburgh'',
                 zipcode = ''90566-7771'', geo = \<lparr>lat = ''-43.9509'', lng = ''-34.4618''\<rparr>\<rparr>,
      company = \<lparr>Company.name = ''Marketing'',
                 catchPhrase = ''Proactive didactic contingency'',
                 bs = ''synergize scalable supply-chains''\<rparr>\<rparr>"

definition clementine :: Employee where
  "clementine =
     \<lparr>id' = 3, Employee.name = ''Clementine Bauch'', username = ''Samantha'',
      Employee.email = ''Nathan@yesenia.net'', Employee.phone = ''1-463-123-4447'',
      website = ''ramiro.info'',
      address = \<lparr>street = ''Douglas Extension'', suite = ''Suite 847'', city = ''McKenziehaven'',
                 zipcode = ''59590-4157'', geo = \<lparr>lat = ''-68.6102'', lng = ''-47.0653''\<rparr>\<rparr>,
      company = \<lparr>Company.name = ''Sales'',
                 catchPhrase = ''Face to face bifurcated interface'',
                 bs = ''e-enable strategic applications''\<rparr>\<rparr>"

definition mockEmployees :: "Employee list" where
  "mockEmployees = [leanne, ervin, clementine]"

text \<open>The state after the records have been loaded, before any other action.\<close>

definition loaded :: "Employee list \<Rightarrow> AppState" where
  "loaded emps =
     \<lparr>employees = emps, loading = False, error = None, retrying = False, showForm = False,
      editingEmployee = None, formLoading = False, searchTerm = [], departmentFilter = [],
      sortConfig = None, currentPage = 1, pageSize = 10\<rparr>"

text \<open>The valid draft of the test suite.\<close>

definition johnDoe :: EmployeeFormData where
  "johnDoe =
     \<lparr>EmployeeFormData.name = ''John Doe'', EmployeeFormData.email = ''john@example.com'',
      EmployeeFormData.phone = ''1-770-736-8031'', department = ''Engineering''\<rparr>"

section \<open>Notions of the specification\<close>

text \<open>
  A text contains a term without regard to case when the lower-cased term is a contiguous
  block of the lower-cased text.
\<close>

definition containsIgnoringCase :: "string \<Rightarrow> string \<Rightarrow> bool" where
  "containsIgnoringCase txt t = sublist (toLowerCase t) (toLowerCase txt)"

text \<open>
  The text of a phone number as the specification words it: digits, spaces, parentheses,
  hyphens and dots only, after at most one plus sign in the leading position.
\<close>

definition claimedPhoneChar :: "char \<Rightarrow> bool" where
  "claimedPhoneChar c = (isDigit c \<or> isSpace c \<or> c \<in> set ''()-.'')"

definition phoneAsClaimed :: "string \<Rightarrow> bool" where
  "phoneAsClaimed s =
     (case s of [] \<Rightarrow> True
      | c # r \<Rightarrow> (c = CHR ''+'' \<or> claimedPhoneChar c) \<and> list_all claimedPhoneChar r)"

text \<open>An error of the service, as the service throws it after its last attempt.\<close>

definition networkError :: ApiError where
  "networkError = \<lparr>ApiError.message = ''Network error occurred'', status = Some 500\<rparr>"

text \<open>
  The state that the program reaches from the loaded records of the test suite when the
  record with the identifier 3 is deleted, a record is created from the valid draft while
  the call is under way, and the call then fails.
\<close>

definition sharedIdState :: AppState where
  "sharedIdState =
     deleteFailed networkError clementine
       (fst (handleFormSave (employees (deleteOptimistic clementine (loaded mockEmployees)))
               (Inr (createEmployee johnDoe (Some 11) 0))
               (deleteOptimistic clementine (loaded mockEmployees))))"

section \<open>Evaluation\<close>

lemmas char_defs =
  inRange_def isDigit_def isLetter_def isAlnum_def isSpace_def isUpper_def toLowerChar_def

lemmas rx_defs =
  Opt_def Plus_def Lit_def emailLocalChar_def labelChar_def labelRegex_def emailRegex_def
  phoneChar_def phoneRegex_def nameChar_def nameRegex_def

lemmas mock_defs = mockEmployees_def leanne_def ervin_def clementine_def

lemmas validator_defs =
  validateName_def validateEmail_def validatePhone_def validateDepartment_def
  validDepartments_def trim_def digitsOnly_def

section \<open>Patterns and their languages\<close>

lemma nil_in_conc: "[] \<in> conc A B \<longleftrightarrow> [] \<in> A \<and> [] \<in> B"
  by (auto simp add: conc_def)

lemma nil_in_repeatUpTo: "[] \<in> repeatUpTo n A"
  by (cases n) simp_all

lemma nullable_lang: "nullable r \<longleftrightarrow> [] \<in> lang r"
  by (induction r) (auto simp add: nil_in_conc nil_in_repeatUpTo intro: star.star_empty)

lemma lang_seq: "lang (seq r s) = conc (lang r) (lang s)"
  by (cases "(r, s)" rule: seq.cases) (auto simp add: conc_def)

lemma lang_alt: "lang (alt r s) = lang r \<union> lang s"
  by (cases "(r, s)" rule: alt.cases) auto

lemma rest_conc:
  "rest c (conc A B) = conc (rest c A) B \<union> (if [] \<in> A then rest c B else {})"
proof (intro set_eqI iffI)
  fix w
  assume "w \<in> rest c (conc A B)"
  then obtain u v where uv: "c # w = u @ v" "u \<in> A" "v \<in> B"
    by (auto simp add: rest_def conc_def)
  show "w \<in> conc (rest c A) B \<union> (if [] \<in> A then rest c B else {})"
  proof (cases u)
    case Nil
    with uv show ?thesis by (auto simp add: rest_def)
  next
    case (Cons d u')
    with uv have "d = c" "w = u' @ v" "c # u' \<in> A" by auto
    with uv(3) show ?thesis by (auto simp add: rest_def conc_def)
  qed
next
  fix w
  assume "w \<in> conc (rest c A) B \<union> (if [] \<in> A then rest c B else {})"
  then consider (left) "w \<in> conc (rest c A) B" | (right) "[] \<in> A" "w \<in> rest c B"
    by (auto split: if_splits)
  then show "w \<in> rest c (conc A B)"
  proof cases
    case left
    then obtain u v where "w = u @ v" "c # u \<in> A" "v \<in> B"
      by (auto simp add: rest_def conc_def)
    then have "c # w = (c # u) @ v \<and> c # u \<in> A \<and> v \<in> B" by simp
    then show ?thesis unfolding rest_def conc_def by blast
  next
    case right
    then have "c # w = [] @ (c # w) \<and> [] \<in> A \<and> c # w \<in> B" by (simp add: rest_def)
    then show ?thesis unfolding rest_def conc_def by blast
  qed
qed

lemma star_split:
  assumes "w \<in> star A" and "w = c # x"
  shows "\<exists>u v. x = u @ v \<and> c # u \<in> A \<and> v \<in> star A"
  using assms
proof (induction arbitrary: x)
  case star_empty
  then show ?case by simp
next
  case (star_more u v)
  show ?case
  proof (cases u)
    case Nil
    with star_more show ?thesis by simp
  next
    case (Cons d u')
    with star_more.prems have "d = c" "x = u' @ v" by simp_all
    with Cons star_more.hyps show ?thesis by blast
  qed
qed

lemma rest_star: "rest c (star A) = conc (rest c A) (star A)"
proof (intro set_eqI iffI)
  fix w
  assume "w \<in> rest c (star A)"
  then have "c # w \<in> star A" by (simp add: rest_def)
  from star_split [OF this refl] show "w \<in> conc (rest c A) (star A)"
    by (auto simp add: rest_def conc_def)
next
  fix w
  assume "w \<in> conc (rest c A) (star A)"
  then obtain u v where "w = u @ v" "c # u \<in> A" "v \<in> star A"
    by (auto simp add: rest_def conc_def)
  then have "(c # u) @ v \<in> star A" by (intro star.star_more)
  with \<open>w = u @ v\<close> show "w \<in> rest c (star A)" by (simp add: rest_def)
qed

lemma repeatUpTo_mono: "repeatUpTo n A \<subseteq> repeatUpTo (Suc n) A"
proof (induction n)
  case 0
  show ?case by simp
next
  case (Suc n)
  then have "conc A (repeatUpTo n A) \<subseteq> conc A (repeatUpTo (Suc n) A)"
    unfolding conc_def by blast
  then show ?case by auto
qed

lemma rest_repeatUpTo:
  "rest c (repeatUpTo n A) = (case n of 0 \<Rightarrow> {} | Suc m \<Rightarrow> conc (rest c A) (repeatUpTo m A))"
proof (induction n)
  case 0
  show ?case by (simp add: rest_def)
next
  case (Suc n)
  have "rest c (repeatUpTo n A) \<subseteq> conc (rest c A) (repeatUpTo n A)"
  proof (cases n)
    case 0
    then show ?thesis by (simp add: rest_def)
  next
    case (Suc m)
    have "conc (rest c A) (repeatUpTo m A) \<subseteq> conc (rest c A) (repeatUpTo (Suc m) A)"
      using repeatUpTo_mono [of m A] unfolding conc_def by blast
    with Suc.IH Suc show ?thesis by simp
  qed
  moreover have "rest c (insert [] X) = rest c X" for X
    by (simp add: rest_def)
  ultimately show ?case
    by (auto simp add: rest_conc)
qed

lemma rest_simple:
  "rest c {} = {}" "rest c {[]} = {}" "rest c (A \<union> B) = rest c A \<union> rest c B"
  by (auto simp add: rest_def)

lemma lang_deriv: "lang (deriv c r) = rest c (lang r)"
proof (induction r)
  case (Cls p)
  show ?case by (auto simp add: rest_def)
next
  case (Seq r s)
  then show ?case
    by (simp add: lang_seq lang_alt rest_conc nullable_lang)
next
  case (Star r)
  then show ?case
    by (simp add: lang_seq rest_star)
next
  case (Upto n r)
  have "lang (deriv c (Upto n r))
      = (case n of 0 \<Rightarrow> {} | Suc m \<Rightarrow> conc (rest c (lang r)) (repeatUpTo m (lang r)))"
    using Upto by (cases n) (simp_all add: lang_seq)
  also have "\<dots> = rest c (repeatUpTo n (lang r))"
    by (rule rest_repeatUpTo [symmetric])
  finally show ?case by simp
qed (simp_all add: lang_alt rest_simple)

text \<open>\<open>test\<close> decides membership in the language of the pattern.\<close>

lemma test_lang: "test r w \<longleftrightarrow> w \<in> lang r"
  by (induction w arbitrary: r) (simp_all add: nullable_lang lang_deriv rest_def)

section \<open>The sort toggle\<close>

text \<open>
  C1. Toggling a column \<open>k\<close> gives ascending on \<open>k\<close> when no sort is set or another
  column is sorted, descending on \<open>k\<close> when \<open>k\<close> is sorted ascending, and no sort when
  \<open>k\<close> is sorted descending. So three toggles of one column, starting from no sort, end
  with no sort; without a sort the sort stage returns its input as it is, and the sorted
  sequence and every page of it are the same after no toggle and after three. On the
  state, three clicks on a column of an unsorted view change nothing but the current page,
  which every click sets to 1.
\<close>

theorem handleSort_cycle:
  "handleSort k None = Some \<lparr>key = k, direction = Asc\<rparr> \<and>
   (key p \<noteq> k \<longrightarrow> handleSort k (Some p) = Some \<lparr>key = k, direction = Asc\<rparr>) \<and>
   handleSort k (Some \<lparr>key = k, direction = Asc\<rparr>) = Some \<lparr>key = k, direction = Desc\<rparr> \<and>
   handleSort k (Some \<lparr>key = k, direction = Desc\<rparr>) = None \<and>
   handleSort k (handleSort k (handleSort k None)) = None \<and>
   sortedEmployees xs None = xs \<and>
   sortedEmployees xs (handleSort k (handleSort k (handleSort k None))) = sortedEmployees xs None \<and>
   paginatedEmployees
     (sortedEmployees (filteredEmployees emps search dept)
        (handleSort k (handleSort k (handleSort k None)))) page psize =
   paginatedEmployees (sortedEmployees (filteredEmployees emps search dept) None) page psize \<and>
   (sortConfig st = None \<longrightarrow>
      sortClicked k (sortClicked k (sortClicked k st)) = st\<lparr>currentPage := 1\<rparr>)"
  by (simp add: handleSort_def sortedEmployees_def sortClicked_def)

theorem handleSort_cycle_witness:
  "key \<lparr>key = KeyName, direction = Desc\<rparr> \<noteq> KeyId \<and>
   handleSort KeyId (Some \<lparr>key = KeyName, direction = Desc\<rparr>)
     = Some \<lparr>key = KeyId, direction = Asc\<rparr> \<and>
   sortedEmployees mockEmployees
     (handleSort KeyName (handleSort KeyName (handleSort KeyName None))) = mockEmployees \<and>
   sortConfig (loaded mockEmployees) = None \<and>
   sortClicked KeyName (sortClicked KeyName (sortClicked KeyName (loaded mockEmployees)))
     = loaded mockEmployees"
proof -
  have unsorted: "sortConfig (loaded mockEmployees) = None"
    and first: "(loaded mockEmployees)\<lparr>currentPage := 1\<rparr> = loaded mockEmployees"
    by (simp_all add: loaded_def)
  from handleSort_cycle [of KeyId "\<lparr>key = KeyName, direction = Desc\<rparr>"]
    handleSort_cycle [of KeyName _ mockEmployees _ _ _ _ _ "loaded mockEmployees"]
    unsorted first
  show ?thesis by simp
qed

text \<open>The scenario of the test suite: by name ascending, then descending.\<close>

lemma sort_by_name_scenario:
  "sortedEmployees mockEmployees (handleSort KeyName None) = [clementine, ervin, leanne] \<and>
   sortedEmployees mockEmployees (handleSort KeyName (handleSort KeyName None))
     = [leanne, ervin, clementine]"
  by (simp add: handleSort_def sortedEmployees_def sortBy_def compareEmployees_def
      toLowerCase_def char_defs mock_defs)

section \<open>Validity of a form\<close>

text \<open>
  C10. \<open>isFormValid\<close> of a mapping without entries is true and \<open>getFirstErrorMessage\<close>
  of it is the empty string, while \<open>validateEmployeeForm\<close> of an empty draft (no field
  at all, or four empty fields) reports each of the four fields invalid.
\<close>

theorem isFormValid_no_entries:
  "isFormValid [] \<and> getFirstErrorMessage [] = [] \<and>
   map (\<lambda>(k, r). (k, isValid r)) (validateEmployeeForm Map.empty) =
     [(''name'', False), (''email'', False), (''phone'', False), (''department'', False)] \<and>
   \<not> isFormValid (validateEmployeeForm Map.empty) \<and>
   map (\<lambda>(k, r). (k, isValid r))
     (validateEmployeeForm (formDict \<lparr>EmployeeFormData.name = [], EmployeeFormData.email = [],
        EmployeeFormData.phone = [], department = []\<rparr>)) =
     [(''name'', False), (''email'', False), (''phone'', False), (''department'', False)]"
  by (simp add: isFormValid_def getFirstErrorMessage_def validateEmployeeForm_def field_def
      validateName_def validateEmail_def validatePhone_def validateDepartment_def trim_def
      formDict_def)

section \<open>The round trip of a valid draft\<close>

lemma formDataOf_createEmployee: "formDataOf (createEmployee d responseId now) = d"
  by (simp add: formDataOf_def createEmployee_def newEmployee_def)

lemma formDataOf_id: "formDataOf (e\<lparr>id' := i\<rparr>) = formDataOf e"
  by (simp add: formDataOf_def)

lemma id_updatedEmployee: "id' (updatedEmployee i d) = i"
  by (simp add: updatedEmployee_def)

lemma formDataOf_updatedEmployee: "formDataOf (updatedEmployee i d) = d"
  by (simp add: formDataOf_def updatedEmployee_def)

lemma johnDoe_valid: "isFormValid (validateEmployeeForm (formDict johnDoe))"
  by (simp add: isFormValid_def validateEmployeeForm_def formDict_def johnDoe_def field_def
      validator_defs char_defs rx_defs)

text \<open>
  C9. Let every field of a draft \<open>d\<close> be valid. The record that \<open>createEmployee\<close>
  builds from \<open>d\<close>, the record that \<open>handleFormSave\<close> then puts in front of the
  collection, and, when a record is edited and the server answers with the body it was
  sent, the record that replaces the edited one: the draft that the form rebuilds from each
  of them has every field valid again.
\<close>

theorem validateEmployeeForm_round_trip:
  assumes "isFormValid (validateEmployeeForm (formDict d))"
  shows "isFormValid (validateEmployeeForm
           (formDict (formDataOf (createEmployee d responseId now)))) \<and>
         (editingEmployee st = None \<longrightarrow>
            isFormValid (validateEmployeeForm (formDict (formDataOf (hd (employees (fst
              (handleFormSave captured (Inr (createEmployee d responseId now)) st)))))))) \<and>
         (editingEmployee st = Some editing \<longrightarrow>
            (\<forall>r \<in> set (employees (fst
                 (handleFormSave captured (Inr (updatedEmployee (id' editing) d)) st))).
               id' r = id' editing \<longrightarrow>
               isFormValid (validateEmployeeForm (formDict (formDataOf r)))))"
  using assms
  by (auto simp add: handleFormSave_def formDataOf_createEmployee formDataOf_id
      formDataOf_updatedEmployee id_updatedEmployee)

lemma edited_ervin:
  "employees (fst (handleFormSave mockEmployees (Inr (updatedEmployee (id' ervin) johnDoe))
     ((loaded mockEmployees)\<lparr>editingEmployee := Some ervin\<rparr>)))
   = [leanne, updatedEmployee 2 johnDoe, clementine]"
  by (simp add: handleFormSave_def loaded_def mock_defs)

theorem validateEmployeeForm_round_trip_witness:
  "isFormValid (validateEmployeeForm (formDict johnDoe)) \<and>
   isFormValid (validateEmployeeForm
     (formDict (formDataOf (createEmployee johnDoe (Some 11) 0)))) \<and>
   isFormValid (validateEmployeeForm (formDict (formDataOf (hd (employees (fst
      (handleFormSave mockEmployees (Inr (createEmployee johnDoe (Some 11) 0))
         (loaded mockEmployees)))))))) \<and>
   isFormValid (validateEmployeeForm (formDict (formDataOf (updatedEmployee 2 johnDoe))))"
proof -
  let ?st = "(loaded mockEmployees)\<lparr>editingEmployee := Some ervin\<rparr>"
  have none: "editingEmployee (loaded mockEmployees) = None"
    by (simp add: loaded_def)
  have some: "editingEmployee ?st = Some ervin"
    by simp
  have ervin2: "id' ervin = 2"
    by (simp add: ervin_def)
  note created = validateEmployeeForm_round_trip [OF johnDoe_valid,
      where responseId = "Some 11" and now = 0 and st = "loaded mockEmployees"
        and captured = mockEmployees]
  note edited = validateEmployeeForm_round_trip [OF johnDoe_valid,
      where st = ?st and editing = ervin and captured = mockEmployees]
  from edited some
  have "\<forall>r \<in> set [leanne, updatedEmployee 2 johnDoe, clementine].
          id' r = id' ervin \<longrightarrow> isFormValid (validateEmployeeForm (formDict (formDataOf r)))"
    unfolding edited_ervin by blast
  then have "isFormValid (validateEmployeeForm (formDict (formDataOf (updatedEmployee 2 johnDoe))))"
    by (simp add: id_updatedEmployee ervin2)
  with created none johnDoe_valid show ?thesis
    by blast
qed

section \<open>Changing the page\<close>

lemma totalPages_mock: "viewTotalPages ((loaded mockEmployees)\<lparr>pageSize := 2\<rparr>) = Num 2"
  by (simp add: viewSorted_def loaded_def filteredEmployees_def sortedEmployees_def
      viewTotalPages_def totalPages_def mockEmployees_def)

text \<open>
  C6. A request for a page outside of 1 .. total pages leaves the whole state as it is,
  and the handler has no other outcome than a state; a request inside the range changes
  the current page to the requested one and nothing else. For a positive page size the
  total is the ceiling of the number of shown records over the page size.
\<close>

theorem handlePageChange_range:
  "(\<not> (1 \<le> p \<and> leNum p (viewTotalPages st)) \<longrightarrow> handlePageChange p st = st) \<and>
   (1 \<le> p \<and> leNum p (viewTotalPages st) \<longrightarrow> handlePageChange p st = st\<lparr>currentPage := p\<rparr>) \<and>
   (0 < pageSize st \<longrightarrow>
      viewTotalPages st = Num \<lceil>real (length (viewSorted st)) / real_of_int (pageSize st)\<rceil>)"
  by (simp add: handlePageChange_def viewTotalPages_def totalPages_def)

theorem handlePageChange_range_witness:
  "handlePageChange 3 ((loaded mockEmployees)\<lparr>pageSize := 2\<rparr>)
     = (loaded mockEmployees)\<lparr>pageSize := 2\<rparr> \<and>
   handlePageChange 0 ((loaded mockEmployees)\<lparr>pageSize := 2\<rparr>)
     = (loaded mockEmployees)\<lparr>pageSize := 2\<rparr> \<and>
   handlePageChange 2 ((loaded mockEmployees)\<lparr>pageSize := 2\<rparr>)
     = (loaded mockEmployees)\<lparr>pageSize := 2, currentPage := 2\<rparr> \<and>
   0 < pageSize ((loaded mockEmployees)\<lparr>pageSize := 2\<rparr>) \<and>
   Num \<lceil>real (length (viewSorted ((loaded mockEmployees)\<lparr>pageSize := 2\<rparr>)))
          / real_of_int (pageSize ((loaded mockEmployees)\<lparr>pageSize := 2\<rparr>))\<rceil> = Num 2"
  using handlePageChange_range [of 3 "(loaded mockEmployees)\<lparr>pageSize := 2\<rparr>"]
    handlePageChange_range [of 0 "(loaded mockEmployees)\<lparr>pageSize := 2\<rparr>"]
    handlePageChange_range [of 2 "(loaded mockEmployees)\<lparr>pageSize := 2\<rparr>"]
  by (simp add: totalPages_mock)

section \<open>Pages\<close>

lemma upto_nat: "[1..int T] = map (\<lambda>k. int k + 1) [0..<T]"
  by (induction T) (simp_all add: upto_rec2)

lemma concat_pages: "concat (map (\<lambda>k. take s (drop (k * s) xs)) [0..<T]) = take (T * s) xs"
proof (induction T)
  case 0
  show ?case by simp
next
  case (Suc T)
  have "take (T * s + s) xs = take (T * s) xs @ take s (drop (T * s) xs)"
    by (rule take_add)
  with Suc show ?case by (simp add: add.commute)
qed

lemma slice_page:
  assumes "0 < s" "1 \<le> p"
  shows "paginatedEmployees xs p s = take (nat s) (drop (nat ((p - 1) * s)) xs)"
proof -
  define k where "k = (p - 1) * s"
  have k0: "0 \<le> k" using assms by (simp add: k_def)
  have "slice xs k (k + s) = take (nat s) (drop (nat k) xs)"
  proof (cases "k \<le> int (length xs)")
    case True
    show ?thesis
    proof (cases "k + s \<le> int (length xs)")
      case inside: True
      with True k0 assms show ?thesis by (simp add: slice_def Let_def min_def)
    next
      case False
      with True k0 assms show ?thesis by (simp add: slice_def Let_def min_def)
    qed
  next
    case False
    with k0 assms show ?thesis by (simp add: slice_def Let_def min_def)
  qed
  then show ?thesis by (simp add: paginatedEmployees_def k_def Let_def)
qed

lemma page_of_nothing: "paginatedEmployees [] p s = []"
  by (simp add: paginatedEmployees_def slice_def Let_def)

lemma ceiling_covers:
  assumes "0 < s"
  shows "int n \<le> \<lceil>real n / real_of_int s\<rceil> * s"
proof -
  have "real n / real_of_int s \<le> real_of_int \<lceil>real n / real_of_int s\<rceil>"
    by (rule le_of_int_ceiling)
  then have "real n / real_of_int s * real_of_int s
      \<le> real_of_int \<lceil>real n / real_of_int s\<rceil> * real_of_int s"
    using assms by (intro mult_right_mono) simp_all
  with assms have "real n \<le> real_of_int \<lceil>real n / real_of_int s\<rceil> * real_of_int s"
    by simp
  then have "real_of_int (int n) \<le> real_of_int (\<lceil>real n / real_of_int s\<rceil> * s)"
    by simp
  then show ?thesis by (simp only: of_int_le_iff)
qed

lemma concat_all_pages:
  assumes "0 < s"
  shows "concat (map (\<lambda>p. paginatedEmployees xs p s) [1..\<lceil>real (length xs) / real_of_int s\<rceil>]) = xs"
proof -
  define T where "T = nat \<lceil>real (length xs) / real_of_int s\<rceil>"
  have "0 \<le> real (length xs) / real_of_int s"
    using assms by simp
  then have nonneg: "0 \<le> \<lceil>real (length xs) / real_of_int s\<rceil>"
    by (simp add: zero_le_ceiling)
  then have T: "\<lceil>real (length xs) / real_of_int s\<rceil> = int T"
    by (simp add: T_def)
  have page: "paginatedEmployees xs (int k + 1) s = take (nat s) (drop (k * nat s) xs)" for k
    using slice_page [OF assms, of "int k + 1" xs] assms by (simp add: nat_mult_distrib)
  have "int (length xs) \<le> int T * s"
    using ceiling_covers [OF assms, of "length xs"] by (simp add: T)
  then have "int (length xs) \<le> int (T * nat s)"
    using assms by simp
  then have enough: "length xs \<le> T * nat s"
    by (simp only: of_nat_le_iff)
  have "concat (map (\<lambda>p. paginatedEmployees xs p s) [1..int T])
        = concat (map (\<lambda>k. take (nat s) (drop (k * nat s) xs)) [0..<T])"
    by (simp add: upto_nat comp_def page)
  also have "\<dots> = take (T * nat s) xs"
    by (rule concat_pages)
  also have "\<dots> = xs"
    using enough by simp
  finally show ?thesis by (simp add: T)
qed

text \<open>
  C5. For a positive page size \<open>s\<close> and a sequence of \<open>n\<close> records the number of pages
  is the ceiling of \<open>n / s\<close>; without records it is 0 and every page is empty. Page
  \<open>p \<ge> 1\<close> is the block of at most \<open>s\<close> records that starts at index \<open>(p - 1) * s\<close>,
  and the pages 1 .. total, one after the other, are the sequence itself.
\<close>

theorem pagination_covers:
  assumes "0 < s"
  shows "totalPages xs s = Num \<lceil>real (length xs) / real_of_int s\<rceil> \<and>
         (xs = [] \<longrightarrow> totalPages xs s = Num 0 \<and> paginatedEmployees xs p s = []) \<and>
         (1 \<le> p \<longrightarrow> paginatedEmployees xs p s = take (nat s) (drop (nat ((p - 1) * s)) xs)) \<and>
         concat (map (\<lambda>p. paginatedEmployees xs p s) [1..\<lceil>real (length xs) / real_of_int s\<rceil>]) = xs"
  using assms
  by (simp add: totalPages_def page_of_nothing slice_page concat_all_pages)

theorem pagination_covers_witness:
  "(0::int) < 2 \<and> totalPages mockEmployees 2 = Num 2 \<and>
   paginatedEmployees mockEmployees 1 2 = [leanne, ervin] \<and>
   paginatedEmployees mockEmployees 2 2 = [clementine] \<and>
   paginatedEmployees mockEmployees 1 2 @ paginatedEmployees mockEmployees 2 2 = mockEmployees \<and>
   totalPages [] 2 = Num 0 \<and> paginatedEmployees [] 1 2 = [] \<and>
   totalPages (replicate 25 leanne) 10 = Num 3 \<and>
   paginatedEmployees (replicate 25 leanne) 1 10 = replicate 10 leanne"
  using pagination_covers [of 2 mockEmployees 1] pagination_covers [of 2 mockEmployees 2]
    pagination_covers [of 2 "[]" 1] pagination_covers [of 10 "replicate 25 leanne" 1]
  by (simp add: mockEmployees_def upto_rec1)

section \<open>The filter\<close>

lemma includes_sublist: "includes' s t = sublist t s"
  by (induction s) (simp_all add: sublist_Cons_right)

lemma toLowerChar_idem: "toLowerChar (toLowerChar c) = toLowerChar c"
proof (cases c)
  case (Char b0 b1 b2 b3 b4 b5 b6 b7)
  then show ?thesis
    by (cases b0; cases b1; cases b2; cases b3; cases b4; cases b5; cases b6; cases b7;
        simp add: char_defs)
qed

lemma set_trim: "set (trim s) \<subseteq> set s"
proof -
  have "set (trim s) \<subseteq> set (dropWhile isSpace s)"
    by (auto simp add: trim_def dest: set_dropWhileD)
  also have "\<dots> \<subseteq> set s"
    by (auto dest: set_dropWhileD)
  finally show ?thesis .
qed

lemma lower_term: "toLowerCase (trim (toLowerCase s)) = trim (toLowerCase s)"
proof -
  have "toLowerChar c = c" if "c \<in> set (trim (toLowerCase s))" for c
  proof -
    from that set_trim have "c \<in> set (toLowerCase s)" by blast
    then obtain d where "c = toLowerChar d" by (auto simp add: toLowerCase_def)
    then show ?thesis by (simp add: toLowerChar_idem)
  qed
  then show ?thesis
    by (simp add: toLowerCase_def map_idI)
qed

lemma containsIgnoringCase_block:
  "containsIgnoringCase txt t \<longleftrightarrow>
     (\<exists>pre mid post. txt = pre @ mid @ post \<and> toLowerCase mid = toLowerCase t)"
proof
  assume "containsIgnoringCase txt t"
  then obtain ps ss where "map toLowerChar txt = ps @ map toLowerChar t @ ss"
    by (auto simp add: containsIgnoringCase_def sublist_def toLowerCase_def)
  then have "\<exists>pre suffix. txt = pre @ suffix \<and> ps = map toLowerChar pre \<and>
      map toLowerChar t @ ss = map toLowerChar suffix"
    by (simp only: map_eq_append_conv)
  then obtain pre suffix where whole: "txt = pre @ suffix"
      and suffix: "map toLowerChar suffix = map toLowerChar t @ ss"
    by metis
  from suffix have "\<exists>mid post. suffix = mid @ post \<and> map toLowerChar t = map toLowerChar mid \<and>
      ss = map toLowerChar post"
    by (simp only: map_eq_append_conv)
  then obtain mid post where "suffix = mid @ post" and "map toLowerChar mid = map toLowerChar t"
    by metis
  with whole show "\<exists>pre mid post. txt = pre @ mid @ post \<and> toLowerCase mid = toLowerCase t"
    by (auto simp add: toLowerCase_def)
next
  assume "\<exists>pre mid post. txt = pre @ mid @ post \<and> toLowerCase mid = toLowerCase t"
  then obtain pre mid post where "txt = pre @ mid @ post" and "toLowerCase mid = toLowerCase t"
    by blast
  then have "toLowerCase txt = toLowerCase pre @ toLowerCase t @ toLowerCase post"
    by (simp add: toLowerCase_def)
  then show "containsIgnoringCase txt t"
    unfolding containsIgnoringCase_def sublist_def by blast
qed

text \<open>
  C4. The filter returns the records of its input, as they are and in their order, that
  pass both conditions: when the lower-cased and trimmed term is not empty, the name,
  the email, the phone, the category or the user name of the record contains it without
  regard to case; when the category value is not empty, the category of the record is
  equal to it. The result is a subsequence of the input (the empty one included).
\<close>

theorem filteredEmployees_spec:
  "filteredEmployees emps search dept =
     filter (\<lambda>e.
        (trim (toLowerCase search) \<noteq> [] \<longrightarrow>
           containsIgnoringCase (Employee.name e) (trim (toLowerCase search)) \<or>
           containsIgnoringCase (Employee.email e) (trim (toLowerCase search)) \<or>
           containsIgnoringCase (Employee.phone e) (trim (toLowerCase search)) \<or>
           containsIgnoringCase (Company.name (company e)) (trim (toLowerCase search)) \<or>
           containsIgnoringCase (username e) (trim (toLowerCase search))) \<and>
        (dept \<noteq> [] \<longrightarrow> Company.name (company e) = dept)) emps \<and>
   subseq (filteredEmployees emps search dept) emps"
proof -
  let ?t = "trim (toLowerCase search)"
  have matches: "matchesTerm ?t e \<longleftrightarrow>
      containsIgnoringCase (Employee.name e) ?t \<or>
      containsIgnoringCase (Employee.email e) ?t \<or>
      containsIgnoringCase (Employee.phone e) ?t \<or>
      containsIgnoringCase (Company.name (company e)) ?t \<or>
      containsIgnoringCase (username e) ?t" for e
    by (auto simp add: matchesTerm_def includes_sublist containsIgnoringCase_def lower_term)
  have empty: "matchesTerm [] e" for e
    by (simp add: matchesTerm_def includes_sublist)
  have blank: "search = [] \<Longrightarrow> ?t = []"
    by (simp add: toLowerCase_def trim_def)
  have "filter (matchesTerm ?t) emps =
      filter (\<lambda>e. ?t \<noteq> [] \<longrightarrow> matchesTerm ?t e) emps"
    by (cases "?t = []") (simp_all add: empty)
  then have eq: "filteredEmployees emps search dept =
     filter (\<lambda>e. (?t \<noteq> [] \<longrightarrow> matchesTerm ?t e) \<and>
        (dept \<noteq> [] \<longrightarrow> Company.name (company e) = dept)) emps"
    using blank by (auto simp add: filteredEmployees_def Let_def conj_commute)
  have "subseq (filteredEmployees emps search dept) emps"
    unfolding eq by (rule subseq_filter_left)
  with eq show ?thesis
    by (simp only: matches) 
qed

theorem filteredEmployees_spec_witness:
  "trim (toLowerCase ''Leanne'') = ''leanne'' \<and>
   filteredEmployees mockEmployees ''Leanne'' [] = [leanne] \<and>
   filteredEmployees mockEmployees ''ANTON'' ''Marketing'' = [ervin] \<and>
   filteredEmployees mockEmployees ''Leanne'' ''Sales'' = [] \<and>
   subseq (filteredEmployees mockEmployees ''Leanne'' []) mockEmployees"
proof -
  have lowered: "trim (toLowerCase ''Leanne'') = ''leanne''"
    and other: "trim (toLowerCase ''ANTON'') = ''anton''"
    by (simp_all add: trim_def toLowerCase_def char_defs)
  note eval = containsIgnoringCase_def sublist_code toLowerCase_def char_defs mock_defs
  have "filteredEmployees mockEmployees ''Leanne'' [] = [leanne]"
    unfolding filteredEmployees_spec [of mockEmployees "''Leanne''" "[]", THEN conjunct1] lowered
    by (simp add: eval)
  moreover have "filteredEmployees mockEmployees ''ANTON'' ''Marketing'' = [ervin]"
    unfolding filteredEmployees_spec [of mockEmployees "''ANTON''" "''Marketing''", THEN conjunct1]
      other
    by (simp add: eval)
  moreover have "filteredEmployees mockEmployees ''Leanne'' ''Sales'' = []"
    unfolding filteredEmployees_spec [of mockEmployees "''Leanne''" "''Sales''", THEN conjunct1]
      lowered
    by (simp add: eval)
  moreover have "subseq (filteredEmployees mockEmployees ''Leanne'' []) mockEmployees"
    by (rule filteredEmployees_spec [THEN conjunct2])
  ultimately show ?thesis
    using lowered by blast
qed

section \<open>Deleting with rollback\<close>

lemma insertBy_id: "insertBy (\<lambda>a b. id' a - id' b) x ys = insort_key id' x ys"
  by (induction ys) simp_all

lemma sortBy_id: "sortBy (\<lambda>a b. id' a - id' b) xs = sort_key id' xs"
  by (induction xs) (simp_all add: sortBy_def sort_key_def insertBy_id)

lemma filter_other_ids:
  assumes "\<forall>e \<in> set xs. id' e = id' r \<longrightarrow> e = r"
  shows "filter (\<lambda>e. id' e \<noteq> id' r) xs = removeAll r xs"
proof -
  from assms have "filter (\<lambda>e. id' e \<noteq> id' r) xs = filter (\<lambda>e. e \<noteq> r) xs"
    by (intro filter_cong) auto
  then show ?thesis
    by (simp add: removeAll_filter_not_eq eq_commute)
qed

lemma distinct_ids_restored:
  assumes "r \<in> set xs" and "distinct (map id' xs)"
  shows "distinct (map id' (removeAll r xs @ [r]))"
proof -
  from assms(2) have inj: "inj_on id' (set xs)" and dist: "distinct xs"
    by (simp_all add: distinct_map)
  have "distinct (removeAll r xs @ [r])"
    using dist by (simp add: distinct_removeAll)
  moreover have "set (removeAll r xs @ [r]) = set xs"
    using assms(1) by auto
  then have "inj_on id' (set (removeAll r xs @ [r]))"
    using inj by (simp only:)
  ultimately show ?thesis
    by (simp only: distinct_map)
qed

lemma only_one_with_id:
  assumes "r \<in> set xs" and "distinct (map id' xs)"
  shows "\<forall>e \<in> set xs. id' e = id' r \<longrightarrow> e = r"
proof -
  from assms(2) have "inj_on id' (set xs)"
    by (simp add: distinct_map)
  with assms(1) show ?thesis
    by (auto dest: inj_onD)
qed

text \<open>
  C7, as amended. Let \<open>r\<close> be a record of the collection and the only one with its
  identifier, as it is when the identifiers are pairwise distinct, and let its deletion be
  confirmed. In
  the state in which the call to the service is issued \<open>r\<close> is removed and the other
  records are as before. If the call fails, the handler changes the state by nothing but
  the collection and the error: \<open>r\<close> is appended and the collection sorted by identifier,
  and the error of the call is in the error slot. The collection then holds the same
  records as before the deletion, and pairwise-distinct identifiers if it did before.
\<close>

theorem delete_rollback:
  assumes "r \<in> set (employees st)"
    and "\<forall>e \<in> set (employees st). id' e = id' r \<longrightarrow> e = r"
  shows "employees (deleteOptimistic r st) = removeAll r (employees st) \<and>
         r \<notin> set (employees (deleteOptimistic r st)) \<and>
         handleDeleteEmployee True (Some err) r st
           = st\<lparr>employees := sortBy (\<lambda>a b. id' a - id' b) (employees (deleteOptimistic r st) @ [r]),
                error := Some err\<rparr> \<and>
         error (handleDeleteEmployee True (Some err) r st) = Some err \<and>
         sorted (map id' (employees (handleDeleteEmployee True (Some err) r st))) \<and>
         set (employees (handleDeleteEmployee True (Some err) r st)) = set (employees st) \<and>
         (distinct (map id' (employees st)) \<longrightarrow>
            distinct (map id' (employees (handleDeleteEmployee True (Some err) r st))))"
proof -
  let ?xs = "employees st"
  have removed: "employees (deleteOptimistic r st) = removeAll r ?xs"
    using assms(2) by (simp add: deleteOptimistic_def filter_other_ids)
  have final: "employees (handleDeleteEmployee True (Some err) r st)
      = sort_key id' (removeAll r ?xs @ [r])"
    by (simp add: handleDeleteEmployee_def deleteFailed_def removed sortBy_id)
  have "set (removeAll r ?xs @ [r]) = set ?xs"
    using assms(1) by auto
  then have same: "set (employees (handleDeleteEmployee True (Some err) r st)) = set ?xs"
    by (simp only: final set_sort)
  have dist: "distinct (map id' (employees (handleDeleteEmployee True (Some err) r st)))"
    if "distinct (map id' ?xs)"
    using distinct_ids_restored [OF assms(1) that]
    by (simp only: final distinct_map set_sort distinct_sort)
  have srt: "sorted (map id' (employees (handleDeleteEmployee True (Some err) r st)))"
    by (simp only: final sorted_sort_key)
  have whole: "handleDeleteEmployee True (Some err) r st
           = st\<lparr>employees := sortBy (\<lambda>a b. id' a - id' b) (employees (deleteOptimistic r st) @ [r]),
                error := Some err\<rparr>"
    by (simp add: handleDeleteEmployee_def deleteFailed_def deleteOptimistic_def)
  have err: "error (handleDeleteEmployee True (Some err) r st) = Some err"
    by (simp add: handleDeleteEmployee_def deleteFailed_def)
  from removed whole err srt dist same show ?thesis
    by simp
qed

theorem delete_rollback_witness:
  "leanne \<in> set (employees (loaded [clementine, leanne, ervin])) \<and>
   distinct (map id' (employees (loaded [clementine, leanne, ervin]))) \<and>
   employees (deleteOptimistic leanne (loaded [clementine, leanne, ervin])) = [clementine, ervin] \<and>
   employees (handleDeleteEmployee True (Some networkError) leanne
      (loaded [clementine, leanne, ervin])) = [leanne, ervin, clementine] \<and>
   set (employees (handleDeleteEmployee True (Some networkError) leanne
      (loaded [clementine, leanne, ervin]))) = set (employees (loaded [clementine, leanne, ervin])) \<and>
   distinct (map id' (employees (handleDeleteEmployee True (Some networkError) leanne
      (loaded [clementine, leanne, ervin]))))"
proof -
  let ?st = "loaded [clementine, leanne, ervin]"
  have member: "leanne \<in> set (employees ?st)"
    by (simp add: loaded_def)
  have dist: "distinct (map id' (employees ?st))"
    by (simp add: loaded_def mock_defs)
  note rollback = delete_rollback [OF member only_one_with_id [OF member dist], of networkError]
  have "employees (deleteOptimistic leanne ?st) = [clementine, ervin]"
    by (simp add: deleteOptimistic_def loaded_def mock_defs)
  moreover have "employees (handleDeleteEmployee True (Some networkError) leanne ?st)
      = [leanne, ervin, clementine]"
    by (simp add: handleDeleteEmployee_def deleteFailed_def deleteOptimistic_def loaded_def
        sortBy_def mock_defs)
  ultimately show ?thesis
    using member dist rollback by blast
qed

text \<open>
  C7, as stated, fails. In the state with two records of the identifier 3 the deletion of
  one of them is confirmed and the call fails: the removal takes both records, the
  rollback puts back the deleted one only, and the record created before is lost.
\<close>

theorem rollback_with_shared_id:
  "employees sharedIdState
     = [leanne, ervin, (createEmployee johnDoe (Some 11) 0)\<lparr>id' := 3\<rparr>, clementine] \<and>
   clementine \<in> set (employees sharedIdState) \<and>
   employees (handleDeleteEmployee True (Some networkError) clementine sharedIdState)
     = [leanne, ervin, clementine] \<and>
   set (employees (handleDeleteEmployee True (Some networkError) clementine sharedIdState))
     \<noteq> set (employees sharedIdState)"
proof -
  let ?created = "(createEmployee johnDoe (Some 11) 0)\<lparr>id' := 3\<rparr>"
  have before: "employees sharedIdState = [leanne, ervin, ?created, clementine]"
    by (simp add: sharedIdState_def loaded_def deleteOptimistic_def handleFormSave_def
        deleteFailed_def createEmployee_def newEmployee_def maxId_def sortBy_def mock_defs)
  have after: "employees (handleDeleteEmployee True (Some networkError) clementine sharedIdState)
      = [leanne, ervin, clementine]"
    by (simp add: handleDeleteEmployee_def deleteFailed_def deleteOptimistic_def before
        sortBy_def createEmployee_def newEmployee_def mock_defs)
  have lost: "?created \<notin> set [leanne, ervin, clementine]"
    by (simp add: createEmployee_def newEmployee_def johnDoe_def mock_defs)
  have "?created \<in> set (employees sharedIdState)"
    by (simp add: before)
  with lost have "set (employees (handleDeleteEmployee True (Some networkError) clementine
      sharedIdState)) \<noteq> set (employees sharedIdState)"
    unfolding after by blast
  with before after show ?thesis
    by simp
qed

section \<open>Phone numbers\<close>

lemma test_Nomatch: "test Nomatch w = False"
  by (induction w) simp_all

lemma test_Star_Cls: "test (Star (Cls p)) w = list_all p w"
  by (induction w) (simp_all add: test_Nomatch)

lemma test_Plus_Cls: "test (Plus (Cls p)) w = (w \<noteq> [] \<and> list_all p w)"
  by (cases w) (simp_all add: Plus_def test_Nomatch test_Star_Cls)

lemma test_Alt: "test (Alt a b) w = (test a w \<or> test b w)"
proof (induction w arbitrary: a b)
  case Nil
  show ?case by simp
next
  case (Cons c w)
  have "test (alt x y) w = (test x w \<or> test y w)" for x y
    by (cases "(x, y)" rule: alt.cases) (simp_all add: test_Nomatch Cons)
  then show ?case by simp
qed

lemma test_phoneRegex: "test phoneRegex w = (w \<noteq> [] \<and> list_all phoneChar w)"
proof (cases w)
  case Nil
  then show ?thesis by (simp add: phoneRegex_def Opt_def Plus_def)
next
  case (Cons c r)
  have plus: "phoneChar CHR ''+''"
    by (simp add: phoneChar_def)
  show ?thesis
  proof (cases "c = CHR ''+''")
    case True
    with Cons plus show ?thesis
      using test_Plus_Cls [of phoneChar r]
      by (auto simp add: phoneRegex_def Opt_def Plus_def Lit_def test_Alt test_Star_Cls)
  next
    case False
    with Cons show ?thesis
      by (simp add: phoneRegex_def Opt_def Plus_def Lit_def test_Nomatch test_Star_Cls)
  qed
qed

text \<open>
  C3, as amended. \<open>validatePhone\<close> answers "Phone number is required" when the trimmed
  input is empty; else "Phone number must contain at least 10 digits" when the input has
  fewer than 10 digits, whatever else it holds; else it is valid exactly when the trimmed
  input consists of digits, white space, parentheses, hyphens, dots and plus signs, a
  plus sign being allowed at every position and any number of times, and it answers
  "Please enter a valid phone number" when it is not.
\<close>

theorem validatePhone_spec:
  "validatePhone ph =
     (if trim ph = []
        then \<lparr>isValid = False, ValidationResult.message = ''Phone number is required''\<rparr>
      else if length (filter isDigit ph) < 10
        then \<lparr>isValid = False, ValidationResult.message = ''Phone number must contain at least 10 digits''\<rparr>
      else if list_all phoneChar (trim ph)
        then \<lparr>isValid = True, ValidationResult.message = []\<rparr>
      else \<lparr>isValid = False, ValidationResult.message = ''Please enter a valid phone number''\<rparr>)"
  by (simp add: validatePhone_def digitsOnly_def test_phoneRegex)

text \<open>
  C3, as stated, fails: a plus sign in the middle of ten digits is accepted, and the text
  is not of the form the claim words.
\<close>

theorem validatePhone_inner_plus:
  "validatePhone ''12345+67890'' = \<lparr>isValid = True, ValidationResult.message = []\<rparr> \<and>
   \<not> phoneAsClaimed (trim ''12345+67890'')"
  by (simp add: validator_defs char_defs rx_defs phoneAsClaimed_def claimedPhoneChar_def)

theorem validatePhone_spec_witness:
  "validatePhone ''+1 (770) 736-8031'' = \<lparr>isValid = True, ValidationResult.message = []\<rparr> \<and>
   validatePhone ''1-770-736-8031 x56442''
     = \<lparr>isValid = False, ValidationResult.message = ''Please enter a valid phone number''\<rparr> \<and>
   validatePhone ''123-456-abcd''
     = \<lparr>isValid = False, ValidationResult.message = ''Phone number must contain at least 10 digits''\<rparr> \<and>
   validatePhone ''  '' = \<lparr>isValid = False, ValidationResult.message = ''Phone number is required''\<rparr>"
  using validatePhone_spec [of "''+1 (770) 736-8031''"]
    validatePhone_spec [of "''1-770-736-8031 x56442''"]
    validatePhone_spec [of "''123-456-abcd''"]
    validatePhone_spec [of "''  ''"]
  by (simp add: trim_def phoneChar_def char_defs)

section \<open>Email addresses without a dot in the domain\<close>

text \<open>
  C2. The test suite of the program lists \<^verbatim>\<open>test@example\<close> among the malformed addresses,
  and the claim says that a domain without a dot is invalid. The pattern ends in a
  repetition that may be empty, and \<open>validateEmail\<close> accepts the address.
\<close>

theorem validateEmail_dotless_domain:
  "validateEmail ''test@example'' = \<lparr>isValid = True, ValidationResult.message = []\<rparr>"
  by (simp add: validator_defs char_defs rx_defs)

section \<open>Identifiers after a rollback\<close>

text \<open>
  Taken alone, each step keeps the identifiers distinct: the optimistic removal, and the
  creation when the handler reads the maximal identifier from the collection it adds to.
\<close>

lemma id_le_maxId: "e \<in> set xs \<Longrightarrow> id' e \<le> maxId xs"
  by (induction xs) (auto simp add: maxId_def)

lemma create_keeps_ids_distinct:
  assumes "distinct (map id' xs)"
  shows "distinct (map id' (e\<lparr>id' := maxId xs + 1\<rparr> # xs))"
proof -
  have "maxId xs + 1 \<notin> id' ` set xs"
    using id_le_maxId [of _ xs] by fastforce
  with assms show ?thesis by simp
qed

lemma remove_keeps_ids_distinct:
  "distinct (map id' xs) \<Longrightarrow> distinct (map id' (filter (\<lambda>emp. id' emp \<noteq> i) xs))"
  by (rule distinct_map_filter)

text \<open>
  C8. The three records of the test suite are loaded. The record with the maximal
  identifier 3 is deleted and the call is under way; a record is created meanwhile and is
  given the maximal identifier of the remaining collection plus one, which is 3; then the
  deletion fails and the deleted record is put back. Two records have the identifier 3.
\<close>

theorem duplicate_id_after_rollback:
  "(let st0 = loaded mockEmployees;
        st1 = deleteOptimistic clementine st0;
        st2 = fst (handleFormSave (employees st1)
                (Inr (createEmployee johnDoe (Some 11) 0)) st1);
        st3 = deleteFailed networkError clementine st2
    in distinct (map id' (employees st0)) \<and>
       map id' (employees st2) = [3, 1, 2] \<and>
       map id' (employees st3) = [1, 2, 3, 3] \<and>
       \<not> distinct (map id' (employees st3)))"
  by (simp add: loaded_def deleteOptimistic_def handleFormSave_def deleteFailed_def
      createEmployee_def newEmployee_def maxId_def sortBy_def mock_defs Let_def)

end
